theory Spec2Isabelle
  imports Main "HOL-Library.Word"
begin

section \<open>Data model of \<open>log.go\<close>\<close>

text \<open>
  Go's \<open>[]byte\<close> and \<open>string\<close> are both sequences of bytes; an Isabelle \<open>char\<close> is
  one byte, so both are character lists here.
\<close>

type_synonym bytes = "char list"

text \<open>\<open>type envelope struct { SHA, Data []byte }\<close>\<close>

record envelope =
  SHA :: bytes
  Data :: bytes

text \<open>\<open>type persistentState struct { CurrentTerm uint64; VotedFor string }\<close>\<close>

record persistentState =
  CurrentTerm :: "64 word"
  VotedFor :: string

text \<open>
  The fields of \<open>Node\<close> that \<open>log.go\<close> touches. The struct is declared outside
  \<open>log.go\<close>; its mutex \<open>mu\<close> has no sequential content and is left out. The field
  \<open>term\<close> is spelled \<open>term'\<close>.
\<close>

record Node =
  logPath :: string
  term' :: "64 word"
  vote :: string

subsection \<open>Errors\<close>

text \<open>
  The errors of \<open>encoding/json\<close> and of \<open>os\<close> are types of their own packages; the two
  sentinels \<open>ErrLogNoState\<close> and \<open>ErrLogCorrupt\<close> belong to graft. An \<open>error\<close> value
  returned by \<open>log.go\<close> is one of the four.
\<close>

datatype json_error = SyntaxError | UnmarshalTypeError | CorruptInputError | UnsupportedValueError

datatype os_error = ErrNotExist | ErrPermission

datatype error = ErrLogNoState | ErrLogCorrupt | ErrJSON json_error | ErrOS os_error

section \<open>The packages \<open>log.go\<close> imports\<close>

subsection \<open>\<open>crypto/sha1\<close> and \<open>encoding/json\<close>\<close>

text \<open>
  \<open>log.go\<close> calls \<open>sha1.Sum\<close>, \<open>json.Marshal\<close> on a \<open>persistentState\<close> and on an
  \<open>envelope\<close>, and \<open>json.Unmarshal\<close> into a fresh \<open>envelope\<close> and a fresh
  \<open>persistentState\<close>. The functions of \<open>log.go\<close> take these five library functions as a
  parameter, so every theorem below holds for any implementation of them.
\<close>

record stdlib =
  sha1_Sum :: "bytes \<Rightarrow> bytes"
  json_Marshal_ps :: "persistentState \<Rightarrow> json_error + bytes"
  json_Marshal_env :: "envelope \<Rightarrow> json_error + bytes"
  json_Unmarshal_env :: "bytes \<Rightarrow> json_error + envelope"
  json_Unmarshal_ps :: "bytes \<Rightarrow> json_error + persistentState"

subsection \<open>\<open>os\<close>: a file system\<close>

text \<open>
  A file system maps a path to the contents of the regular file there. \<open>denied\<close> holds
  the paths on which the operating system refuses every operation (permission denied).
  The empty path names no file.
\<close>

record fsys =
  files :: "string \<rightharpoonup> bytes"
  denied :: "string set"

text \<open>\<open>os.OpenFile(path, os.O_RDWR|os.O_CREATE, 0660)\<close> followed by \<open>Close\<close>.\<close>

definition os_OpenFile :: "string \<Rightarrow> fsys \<Rightarrow> os_error option \<times> fsys" where
  "os_OpenFile path fs =
     (if path = [] then (Some ErrNotExist, fs)
      else if path \<in> denied fs then (Some ErrPermission, fs)
      else case files fs path of
             None \<Rightarrow> (None, fs\<lparr>files := (files fs)(path \<mapsto> [])\<rparr>)
           | Some _ \<Rightarrow> (None, fs))"

definition os_ReadFile :: "string \<Rightarrow> fsys \<Rightarrow> (os_error + bytes) \<times> fsys" where
  "os_ReadFile path fs =
     (if path = [] then (Inl ErrNotExist, fs)
      else case files fs path of
             None \<Rightarrow> (Inl ErrNotExist, fs)
           | Some b \<Rightarrow> if path \<in> denied fs then (Inl ErrPermission, fs) else (Inr b, fs))"

definition os_WriteFile :: "string \<Rightarrow> bytes \<Rightarrow> fsys \<Rightarrow> os_error option \<times> fsys" where
  "os_WriteFile path b fs =
     (if path = [] then (Some ErrNotExist, fs)
      else if path \<in> denied fs then (Some ErrPermission, fs)
      else (None, fs\<lparr>files := (files fs)(path \<mapsto> b)\<rparr>))"

definition os_Remove :: "string \<Rightarrow> fsys \<Rightarrow> os_error option \<times> fsys" where
  "os_Remove path fs =
     (if path = [] then (Some ErrNotExist, fs)
      else case files fs path of
             None \<Rightarrow> (Some ErrNotExist, fs)
           | Some _ \<Rightarrow> if path \<in> denied fs then (Some ErrPermission, fs)
                      else (None, fs\<lparr>files := (files fs)(path := None)\<rparr>))"

text \<open>\<open>os.Stat(path)\<close> succeeds: the existence check.\<close>

definition os_exists :: "string \<Rightarrow> fsys \<Rightarrow> bool" where
  "os_exists path fs = (path \<noteq> [] \<and> files fs path \<noteq> None)"

section \<open>\<open>log.go\<close>\<close>

text \<open>
  Modelled from the spec: \<open>setTerm\<close> and \<open>setVote\<close> are methods of \<open>Node\<close> declared
  outside \<open>log.go\<close>; the spec says they "set the node's in-memory term/vote".
\<close>

definition setTerm :: "64 word \<Rightarrow> Node \<Rightarrow> Node" where
  "setTerm t n = n\<lparr>term' := t\<rparr>"

definition setVote :: "string \<Rightarrow> Node \<Rightarrow> Node" where
  "setVote v n = n\<lparr>vote := v\<rparr>"

text \<open>
  \<open>readState\<close> returns \<open>(*persistentState, error)\<close> with exactly one of the two non-nil
  at every return, so the result is a sum. The file system is threaded through.
\<close>

definition readState :: "stdlib \<Rightarrow> string \<Rightarrow> fsys \<Rightarrow> (error + persistentState) \<times> fsys" where
  "readState L path fs =
     (case os_ReadFile path fs of
        (Inl err, fs1) \<Rightarrow> (Inl (ErrOS err), fs1)
      | (Inr buf, fs1) \<Rightarrow>
          if length buf \<le> 0 then (Inl ErrLogNoState, fs1)
          else case json_Unmarshal_env L buf of
                 Inl err \<Rightarrow> (Inl (ErrJSON err), fs1)
               | Inr env \<Rightarrow>
                   let sha = sha1_Sum L (Data env) in
                   if sha \<noteq> SHA env then
                     let hashOfNothing = sha1_Sum L [];
                         legacyDigest = Data env @ hashOfNothing
                     in if legacyDigest \<noteq> SHA env then (Inl ErrLogCorrupt, fs1)
                        else (case json_Unmarshal_ps L (Data env) of
                                Inl err \<Rightarrow> (Inl (ErrJSON err), fs1)
                              | Inr ps \<Rightarrow> (Inr ps, fs1))
                   else (case json_Unmarshal_ps L (Data env) of
                           Inl err \<Rightarrow> (Inl (ErrJSON err), fs1)
                         | Inr ps \<Rightarrow> (Inr ps, fs1)))"

definition initLog :: "stdlib \<Rightarrow> string \<Rightarrow> Node \<Rightarrow> fsys \<Rightarrow> error option \<times> Node \<times> fsys" where
  "initLog L path n fs =
     (case os_OpenFile path fs of
        (Some err, fs1) \<Rightarrow> (Some (ErrOS err), n, fs1)
      | (None, fs1) \<Rightarrow>
          let n1 = n\<lparr>logPath := path\<rparr> in
          case readState L path fs1 of
            (Inl err, fs2) \<Rightarrow>
              if err \<noteq> ErrLogNoState then (Some err, n1, fs2) else (None, n1, fs2)
          | (Inr ps, fs2) \<Rightarrow>
              (None, setVote (VotedFor ps) (setTerm (CurrentTerm ps) n1), fs2))"

definition closeLog :: "Node \<Rightarrow> fsys \<Rightarrow> error option \<times> Node \<times> fsys" where
  "closeLog n fs =
     (case os_Remove (logPath n) fs of
        (err, fs1) \<Rightarrow> (map_option ErrOS err, n\<lparr>logPath := []\<rparr>, fs1))"

definition writeState :: "stdlib \<Rightarrow> Node \<Rightarrow> fsys \<Rightarrow> error option \<times> fsys" where
  "writeState L n fs =
     (let ps = \<lparr>CurrentTerm = term' n, VotedFor = vote n\<rparr>;
          path = logPath n
      in case json_Marshal_ps L ps of
           Inl err \<Rightarrow> (Some (ErrJSON err), fs)
         | Inr buf \<Rightarrow>
             (let sha = sha1_Sum L buf;
                  env = \<lparr>SHA = sha, Data = buf\<rparr>
              in (case json_Marshal_env L env of
                    Inl err \<Rightarrow> (Some (ErrJSON err), fs)
                  | Inr toWrite \<Rightarrow>
                      (case os_WriteFile path toWrite fs of
                         (err, fs1) \<Rightarrow> (map_option ErrOS err, fs1)))))"

section \<open>Properties\<close>

subsection \<open>Auxiliary facts about the file system\<close>

lemma os_ReadFile_frame: "snd (os_ReadFile path fs) = fs"
  by (simp add: os_ReadFile_def split: option.split)

lemma os_ReadFile_result:
  assumes "fst (os_ReadFile path fs) = r"
  shows "os_ReadFile path fs = (r, fs)"
  using assms os_ReadFile_frame [of path fs] by (cases "os_ReadFile path fs") simp

lemma os_ReadFile_after_write:
  assumes "path \<noteq> []" and "path \<notin> denied fs"
  shows "os_WriteFile path b fs = (None, fs\<lparr>files := (files fs)(path \<mapsto> b)\<rparr>)"
    and "os_ReadFile path (fs\<lparr>files := (files fs)(path \<mapsto> b)\<rparr>)
           = (Inr b, fs\<lparr>files := (files fs)(path \<mapsto> b)\<rparr>)"
    and "os_OpenFile path (fs\<lparr>files := (files fs)(path \<mapsto> b)\<rparr>)
           = (None, fs\<lparr>files := (files fs)(path \<mapsto> b)\<rparr>)"
  using assms by (simp_all add: os_WriteFile_def os_ReadFile_def os_OpenFile_def)

text \<open>What \<open>readState\<close> does once the file has been read and is not empty.\<close>

definition verified :: "stdlib \<Rightarrow> envelope \<Rightarrow> bool" where
  "verified L env = (sha1_Sum L (Data env) = SHA env \<or> Data env @ sha1_Sum L [] = SHA env)"

lemma readState_nonempty:
  assumes "fst (os_ReadFile path fs) = Inr buf" and "buf \<noteq> []"
  shows "readState L path fs =
           (case json_Unmarshal_env L buf of
              Inl err \<Rightarrow> (Inl (ErrJSON err), fs)
            | Inr env \<Rightarrow>
                if verified L env
                then (case json_Unmarshal_ps L (Data env) of
                        Inl err \<Rightarrow> (Inl (ErrJSON err), fs)
                      | Inr ps \<Rightarrow> (Inr ps, fs))
                else (Inl ErrLogCorrupt, fs))"
  using os_ReadFile_result [OF assms(1)] assms(2)
  by (simp add: readState_def verified_def Let_def split: sum.split)

subsection \<open>Reading\<close>

text \<open>
  C9: \<open>readState\<close> never writes to the backing file. Whatever the file holds (a current
  envelope, a legacy envelope, garbage, nothing) and whatever the library functions
  return, the file system after the read is the file system before it; in particular a
  legacy file is not rewritten under the current scheme.
\<close>

theorem readState_frame: "snd (readState L path fs) = fs"
proof -
  obtain r fs1 where rd: "os_ReadFile path fs = (r, fs1)"
    by (cases "os_ReadFile path fs")
  with os_ReadFile_frame [of path fs] have "fs1 = fs" by simp
  with rd show ?thesis
    by (simp add: readState_def Let_def split: sum.split)
qed

text \<open>
  C4: when the backing file is read successfully and holds zero bytes, \<open>readState\<close>
  fails with \<open>ErrLogNoState\<close>, which is not \<open>ErrLogCorrupt\<close>.
\<close>

theorem readState_empty_file:
  assumes "fst (os_ReadFile path fs) = Inr []"
  shows "fst (readState L path fs) = Inl ErrLogNoState
       \<and> fst (readState L path fs) \<noteq> Inl ErrLogCorrupt"
  using os_ReadFile_result [OF assms] by (simp add: readState_def)

text \<open>
  C3: a non-empty file that decodes to an envelope whose stored digest is neither the hash
  of the payload nor the payload followed by the hash of the empty input makes
  \<open>readState\<close> fail with \<open>ErrLogCorrupt\<close>. Nothing else is tried: the result does not
  depend on whether the payload would decode.
\<close>

theorem readState_corrupt:
  assumes "fst (os_ReadFile path fs) = Inr buf" and "buf \<noteq> []"
      and "json_Unmarshal_env L buf = Inr env"
      and "sha1_Sum L (Data env) \<noteq> SHA env"
      and "Data env @ sha1_Sum L [] \<noteq> SHA env"
  shows "fst (readState L path fs) = Inl ErrLogCorrupt"
  using assms(3-5) by (simp add: readState_nonempty [OF assms(1,2)] verified_def)

text \<open>
  C2: a non-empty file that decodes to an envelope whose payload decodes to a state is
  accepted as soon as one of the two digest checks passes: the stored digest is the hash
  of the payload, or it is the payload followed by the hash of the empty input (the legacy
  scheme). Either one is enough; \<open>readState\<close> then returns the state decoded from the
  payload and not \<open>ErrLogCorrupt\<close>. In \<open>readState\<close> the legacy comparison sits in the
  branch taken when the primary comparison has failed.
\<close>

theorem readState_legacy:
  assumes "fst (os_ReadFile path fs) = Inr buf" and "buf \<noteq> []"
      and "json_Unmarshal_env L buf = Inr env"
      and "json_Unmarshal_ps L (Data env) = Inr ps"
      and "SHA env = Data env @ sha1_Sum L [] \<or> SHA env = sha1_Sum L (Data env)"
  shows "fst (readState L path fs) = Inr ps"
  using assms(3-5) by (auto simp add: readState_nonempty [OF assms(1,2)] verified_def)

text \<open>
  C6, as the code has it: when a non-empty file does not decode to an envelope, or decodes
  to an envelope that passes a digest check but whose payload does not decode to a state,
  \<open>readState\<close> fails and returns the decoder's own error unchanged. That error is not
  the sentinel \<open>ErrLogCorrupt\<close>, so a caller can tell a malformed file from a failed
  digest.
\<close>

theorem readState_decode_error:
  assumes "fst (os_ReadFile path fs) = Inr buf" and "buf \<noteq> []"
      and "json_Unmarshal_env L buf = Inl je
           \<or> (\<exists>env. json_Unmarshal_env L buf = Inr env \<and> verified L env
                    \<and> json_Unmarshal_ps L (Data env) = Inl je)"
  shows "fst (readState L path fs) = Inl (ErrJSON je)
       \<and> fst (readState L path fs) \<noteq> Inl ErrLogCorrupt"
  using assms(3) by (auto simp add: readState_nonempty [OF assms(1,2)])

subsection \<open>Writing\<close>

lemma writeState_success:
  assumes "fst (writeState L n fs) = None"
  obtains buf toWrite where
    "json_Marshal_ps L \<lparr>CurrentTerm = term' n, VotedFor = vote n\<rparr> = Inr buf"
    "json_Marshal_env L \<lparr>SHA = sha1_Sum L buf, Data = buf\<rparr> = Inr toWrite"
    "os_WriteFile (logPath n) toWrite fs = (None, snd (writeState L n fs))"
  using assms
  by (auto simp add: writeState_def Let_def split: sum.splits prod.splits)

lemma os_WriteFile_success:
  assumes "os_WriteFile path b fs = (None, fs1)"
  shows "files fs1 path = Some b"
  using assms by (auto simp add: os_WriteFile_def split: if_splits)

text \<open>
  C5: after a successful \<open>writeState\<close> the backing file holds the encoding of an
  envelope whose payload is the serialized state of the node and whose digest is the hash
  of exactly those payload bytes. That is the primary scheme: whenever the payload is not
  empty and the hash has a fixed length, this digest differs from the legacy digest
  (payload followed by the hash of the empty input).
\<close>

theorem writeState_digest:
  assumes "fst (writeState L n fs) = None"
  shows "\<exists>buf toWrite.
           json_Marshal_ps L \<lparr>CurrentTerm = term' n, VotedFor = vote n\<rparr> = Inr buf
         \<and> json_Marshal_env L \<lparr>SHA = sha1_Sum L buf, Data = buf\<rparr> = Inr toWrite
         \<and> files (snd (writeState L n fs)) (logPath n) = Some toWrite
         \<and> (buf \<noteq> [] \<and> length (sha1_Sum L buf) = length (sha1_Sum L [])
              \<longrightarrow> sha1_Sum L buf \<noteq> buf @ sha1_Sum L [])"
proof -
  from assms obtain buf toWrite where
      m: "json_Marshal_ps L \<lparr>CurrentTerm = term' n, VotedFor = vote n\<rparr> = Inr buf"
    and e: "json_Marshal_env L \<lparr>SHA = sha1_Sum L buf, Data = buf\<rparr> = Inr toWrite"
    and w: "os_WriteFile (logPath n) toWrite fs = (None, snd (writeState L n fs))"
    by (rule writeState_success)
  have "sha1_Sum L buf \<noteq> buf @ sha1_Sum L []"
    if "buf \<noteq> []" and "length (sha1_Sum L buf) = length (sha1_Sum L [])"
  proof
    assume "sha1_Sum L buf = buf @ sha1_Sum L []"
    then have "length (sha1_Sum L buf) = length buf + length (sha1_Sum L [])"
      by (metis length_append)
    with that show False by simp
  qed
  with m e os_WriteFile_success [OF w] show ?thesis by blast
qed

text \<open>
  C1: let the library encode the node's state \<open>{term, vote}\<close> to bytes that decode back
  to the same state, and encode the envelope around them to a non-empty document that
  decodes back to the same envelope (a valid state), and let the log path be writable.
  Then \<open>writeState\<close> succeeds, \<open>readState\<close> on the same file afterwards returns a
  state with the same term and vote, and a second node that runs \<open>initLog\<close> on that file
  ends with the same term and vote.
\<close>

theorem write_read_roundtrip:
  assumes "json_Marshal_ps L \<lparr>CurrentTerm = term' n, VotedFor = vote n\<rparr> = Inr buf"
      and "json_Unmarshal_ps L buf = Inr \<lparr>CurrentTerm = term' n, VotedFor = vote n\<rparr>"
      and "json_Marshal_env L \<lparr>SHA = sha1_Sum L buf, Data = buf\<rparr> = Inr toWrite"
      and "toWrite \<noteq> []"
      and "json_Unmarshal_env L toWrite = Inr \<lparr>SHA = sha1_Sum L buf, Data = buf\<rparr>"
      and "logPath n \<noteq> []" and "logPath n \<notin> denied fs"
  shows "fst (writeState L n fs) = None
       \<and> fst (readState L (logPath n) (snd (writeState L n fs)))
           = Inr \<lparr>CurrentTerm = term' n, VotedFor = vote n\<rparr>
       \<and> fst (initLog L (logPath n) n2 (snd (writeState L n fs))) = None
       \<and> term' (fst (snd (initLog L (logPath n) n2 (snd (writeState L n fs))))) = term' n
       \<and> vote (fst (snd (initLog L (logPath n) n2 (snd (writeState L n fs))))) = vote n"
proof -
  let ?fs1 = "fs\<lparr>files := (files fs)(logPath n \<mapsto> toWrite)\<rparr>"
  note io = os_ReadFile_after_write [OF assms(6,7), of toWrite]
  have w: "writeState L n fs = (None, ?fs1)"
    using assms(1,3) io(1) by (simp add: writeState_def)
  have "fst (os_ReadFile (logPath n) ?fs1) = Inr toWrite"
    using io(2) by simp
  from readState_nonempty [OF this assms(4), of L]
  have r: "readState L (logPath n) ?fs1
             = (Inr \<lparr>CurrentTerm = term' n, VotedFor = vote n\<rparr>, ?fs1)"
    using assms(2,5) by (simp add: verified_def)
  have i: "initLog L (logPath n) n2 ?fs1
             = (None, setVote (vote n) (setTerm (term' n) (n2\<lparr>logPath := logPath n\<rparr>)), ?fs1)"
    using io(3) r by (simp add: initLog_def)
  show ?thesis
    using w r i by (simp add: setTerm_def setVote_def)
qed

subsection \<open>Opening and closing\<close>

text \<open>
  C7: once \<open>initLog\<close> has opened (or created) the file, the outcome follows the load. If
  \<open>readState\<close> reports \<open>ErrLogNoState\<close>, \<open>initLog\<close> succeeds and the node's term and
  vote are what they were. If \<open>readState\<close> reports any other error, corruption
  included, \<open>initLog\<close> fails with that very error. If \<open>readState\<close> returns a state,
  \<open>initLog\<close> succeeds and the node's term and vote are those of the state.
\<close>

theorem initLog_load:
  assumes "fst (os_OpenFile path fs) = None"
  shows "(fst (readState L path (snd (os_OpenFile path fs))) = Inl ErrLogNoState \<longrightarrow>
            fst (initLog L path n fs) = None
          \<and> term' (fst (snd (initLog L path n fs))) = term' n
          \<and> vote (fst (snd (initLog L path n fs))) = vote n)
       \<and> (\<forall>err. fst (readState L path (snd (os_OpenFile path fs))) = Inl err
                 \<and> err \<noteq> ErrLogNoState \<longrightarrow>
            fst (initLog L path n fs) = Some err)
       \<and> (\<forall>ps. fst (readState L path (snd (os_OpenFile path fs))) = Inr ps \<longrightarrow>
            fst (initLog L path n fs) = None
          \<and> term' (fst (snd (initLog L path n fs))) = CurrentTerm ps
          \<and> vote (fst (snd (initLog L path n fs))) = VotedFor ps)"
proof -
  obtain fs1 where o: "os_OpenFile path fs = (None, fs1)"
    using assms by (cases "os_OpenFile path fs") simp
  obtain r fs2 where r: "readState L path fs1 = (r, fs2)"
    by (cases "readState L path fs1")
  show ?thesis
    using o r by (cases r) (simp_all add: initLog_def setTerm_def setVote_def)
qed

text \<open>
  C8, as the code has it: \<open>initLog\<close> on a path where no file exists and that may be
  created makes an empty file there and returns no error: the \<open>ErrLogNoState\<close> of the
  load is absorbed, and the node keeps its term and vote. When \<open>closeLog\<close> returns no
  error the file at the node's log path no longer exists; when the removal fails,
  \<open>closeLog\<close> returns the removal's error.
\<close>

theorem initLog_fresh_closeLog:
  assumes "path \<noteq> []" and "path \<notin> denied fs" and "files fs path = None"
  shows "fst (initLog L path n fs) = None
       \<and> files (snd (snd (initLog L path n fs))) path = Some []
       \<and> term' (fst (snd (initLog L path n fs))) = term' n
       \<and> vote (fst (snd (initLog L path n fs))) = vote n
       \<and> (fst (closeLog m fs') = None \<longrightarrow> \<not> os_exists (logPath m) (snd (snd (closeLog m fs'))))
       \<and> (\<forall>e. fst (os_Remove (logPath m) fs') = Some e \<longrightarrow> fst (closeLog m fs') = Some (ErrOS e))"
proof -
  let ?fs1 = "fs\<lparr>files := (files fs)(path \<mapsto> [])\<rparr>"
  have o: "os_OpenFile path fs = (None, ?fs1)"
    using assms by (simp add: os_OpenFile_def)
  have "os_ReadFile path ?fs1 = (Inr [], ?fs1)"
    using assms by (simp add: os_ReadFile_def)
  then have r: "readState L path ?fs1 = (Inl ErrLogNoState, ?fs1)"
    by (simp add: readState_def)
  have i: "initLog L path n fs = (None, n\<lparr>logPath := path\<rparr>, ?fs1)"
    using o r by (simp add: initLog_def)
  have c1: "\<not> os_exists (logPath m) (snd (snd (closeLog m fs')))" if "fst (closeLog m fs') = None"
    using that
    by (auto simp add: closeLog_def os_Remove_def os_exists_def split: if_splits option.splits)
  have c2: "fst (closeLog m fs') = Some (ErrOS e)" if "fst (os_Remove (logPath m) fs') = Some e" for e
    using that by (auto simp add: closeLog_def split: prod.splits)
  show ?thesis
    using i c1 c2 by simp
qed

text \<open>
  C10: \<open>closeLog\<close> always leaves the node with the empty log path, whether the removal of
  the file succeeded or failed, and it returns the error of the removal (none when the
  removal succeeded). The node's term and vote are not touched.
\<close>

theorem closeLog_clears_path:
  "logPath (fst (snd (closeLog n fs))) = []
   \<and> fst (closeLog n fs) = map_option ErrOS (fst (os_Remove (logPath n) fs))
   \<and> snd (snd (closeLog n fs)) = snd (os_Remove (logPath n) fs)
   \<and> term' (fst (snd (closeLog n fs))) = term' n
   \<and> vote (fst (snd (closeLog n fs))) = vote n"
  by (simp add: closeLog_def split: prod.split)

end
